theory Spec2Isabelle
  imports Complex_Main
begin

section \<open>Values, errors and the operating system as seen by the metric functions\<close>

text \<open>
  The module \<^verbatim>\<open>batchflow/monitor.py\<close> samples a resource metric in a separate process and
  merges the samples with timestamps in the calling process. Python exceptions are values of
  \<open>error\<close>; a call that may raise returns \<open>error + 'a\<close> with \<open>Inl\<close> for the exception.
  Python floats are idealised as \<open>real\<close>: a reading is the exact quotient that the float
  result rounds.
\<close>

datatype error =
    KeyError | ValueError | TypeError | AttributeError | NameError
  | NoSuchProcess | NVMLError | BrokenPipeError | ConnectionResetError | OverflowError
  | RuntimeError

text \<open>A sample is what a metric function returns: a number, or a list with one number per GPU.\<close>

datatype sample = Num real | NumList "int list"

record proc_mem =
  rss :: int
  vms :: int
  uss :: int

record gpu_rates =
  gpu :: int
  memory :: int

text \<open>
  What \<^verbatim>\<open>psutil\<close> and \<^verbatim>\<open>nvidia_smi\<close> report at one instant. \<open>nvidia_smi\<close> is \<open>None\<close> when
  the optional import at the top of the module failed.
\<close>

record os_snapshot =
  cpu_percent :: real
  virtual_memory_used :: int
  current_pid :: nat
  process_table :: "nat \<Rightarrow> proc_mem option"
  nvidia_smi :: "(nat \<Rightarrow> gpu_rates option) option"

text \<open>
  The keyword arguments forwarded to the metric function; only \<^verbatim>\<open>gpu_list\<close> is ever read.
  A keyword \<^verbatim>\<open>pid\<close> of the caller's, which would collide with the \<^verbatim>\<open>pid\<close> that \<^verbatim>\<open>fetch\<close>
  passes, is not among them.
\<close>

record kwargs_t =
  gpu_list :: "nat list option"

datatype monitor_class =
    MemoryMonitor | CPUMonitor | RSSMonitor | VMSMonitor | USSMonitor
  | GPUMonitor | GPUMemoryMonitor


text \<open>\<^verbatim>\<open>psutil.Process(pid)\<close>: \<^verbatim>\<open>pid=None\<close> is the calling process; an unknown pid raises.\<close>

definition psutil_Process :: "os_snapshot \<Rightarrow> nat option \<Rightarrow> error + proc_mem" where
  "psutil_Process os p =
     (case process_table os (case p of None \<Rightarrow> current_pid os | Some q \<Rightarrow> q) of
        None \<Rightarrow> Inl NoSuchProcess
      | Some info \<Rightarrow> Inr info)"

text \<open>
  The common part of the two GPU metrics: \<^verbatim>\<open>gpu_list or [0]\<close>, then one handle and one
  utilisation query per index. Without the driver binding the name \<^verbatim>\<open>nvidia_smi\<close> is unbound.
\<close>

definition gpu_query :: "os_snapshot \<Rightarrow> kwargs_t \<Rightarrow> error + gpu_rates list" where
  "gpu_query os kw =
     (let gl = (case gpu_list kw of None \<Rightarrow> [0] | Some [] \<Rightarrow> [0] | Some l \<Rightarrow> l)
      in case nvidia_smi os of
           None \<Rightarrow> Inl NameError
         | Some nvml \<Rightarrow>
             (case those (map nvml gl) of
                None \<Rightarrow> Inl NVMLError
              | Some res \<Rightarrow> Inr res))"

fun get_usage :: "monitor_class \<Rightarrow> os_snapshot \<Rightarrow> nat option \<Rightarrow> kwargs_t \<Rightarrow> error + sample" where
  "get_usage CPUMonitor os p kw = Inr (Num (cpu_percent os))"
| "get_usage MemoryMonitor os p kw = Inr (Num (real_of_int (virtual_memory_used os) / (1024 ^ 3)))"
| "get_usage RSSMonitor os p kw =
     (case psutil_Process os p of
        Inl e \<Rightarrow> Inl e
      | Inr process \<Rightarrow> Inr (Num (real_of_int (rss process) / (1024 ^ 2))))"
| "get_usage VMSMonitor os p kw =
     (case psutil_Process os p of
        Inl e \<Rightarrow> Inl e
      | Inr process \<Rightarrow> Inr (Num (real_of_int (vms process) / (1024 ^ 3))))"
| "get_usage USSMonitor os p kw =
     (case psutil_Process os p of
        Inl e \<Rightarrow> Inl e
      | Inr process \<Rightarrow> Inr (Num (real_of_int (uss process) / (1024 ^ 3))))"
| "get_usage GPUMonitor os p kw =
     (case gpu_query os kw of
        Inl e \<Rightarrow> Inl e
      | Inr res \<Rightarrow> Inr (NumList (map gpu res)))"
| "get_usage GPUMemoryMonitor os p kw =
     (case gpu_query os kw of
        Inl e \<Rightarrow> Inl e
      | Inr res \<Rightarrow> Inr (NumList (map memory res)))"


section \<open>The alias registry\<close>

text \<open>
  The module first binds \<^verbatim>\<open>MONITOR_ALIASES\<close> to a dictionary from class to alias list and then
  rebinds it to the inverted dictionary, built by a comprehension that runs over the classes
  in insertion order and over each alias list in order. A later pair overwrites an earlier one
  with the same key.
\<close>

definition MONITOR_ALIASES_by_class :: "(monitor_class \<times> string list) list" where
  "MONITOR_ALIASES_by_class =
     [(MemoryMonitor, [''mmonitor'', ''memory'', ''memorymonitor'']),
      (CPUMonitor, [''cmonitor'', ''cpu'', ''cpumonitor'']),
      (RSSMonitor, [''rss'']),
      (VMSMonitor, [''vms'']),
      (USSMonitor, [''uss'']),
      (GPUMonitor, [''gpu'']),
      (GPUMemoryMonitor, [''gpu_memory''])]"

definition MONITOR_ALIASES :: "string \<Rightarrow> monitor_class option" where
  "MONITOR_ALIASES =
     fold (\<lambda>(alias, monitor) d. d(alias \<mapsto> monitor))
       (concat (map (\<lambda>(monitor, aliases). map (\<lambda>alias. (alias, monitor)) aliases)
                    MONITOR_ALIASES_by_class))
       Map.empty"

text \<open>
  \<^verbatim>\<open>str.lower\<close> on the characters of this model (bytes): an upper-case ASCII letter moves to
  its lower-case letter, every other character stays.
\<close>

definition lower_char :: "char \<Rightarrow> char" where
  "lower_char c =
     (let n = (of_char c :: nat) in if 65 \<le> n \<and> n \<le> 90 then char_of (n + 32) else c)"

definition lower :: "string \<Rightarrow> string" where
  "lower s = map lower_char s"

text \<open>
  \<^verbatim>\<open>str.upper\<close> on the same characters. The module does not call it; it serves to say of two
  strings that they differ in letter case alone.
\<close>

definition upper_char :: "char \<Rightarrow> char" where
  "upper_char c =
     (let n = (of_char c :: nat) in if 97 \<le> n \<and> n \<le> 122 then char_of (n - 32) else c)"

definition upper :: "string \<Rightarrow> string" where
  "upper s = map upper_char s"

text \<open>The lookup \<^verbatim>\<open>MONITOR_ALIASES[res.lower()]\<close> of the scoped session.\<close>

definition alias_lookup :: "string \<Rightarrow> error + monitor_class" where
  "alias_lookup res =
     (case MONITOR_ALIASES (lower res) of
        None \<Rightarrow> Inl KeyError
      | Some c \<Rightarrow> Inr c)"


section \<open>Interpolated timestamps\<close>

text \<open>
  \<^verbatim>\<open>numpy.linspace(start, stop, num)\<close> with the default \<^verbatim>\<open>endpoint=True\<close>, over the reals:
  a negative \<^verbatim>\<open>num\<close> raises \<^verbatim>\<open>ValueError\<close>; otherwise the indices \<open>0 .. num - 1\<close> are scaled
  by the step (by \<open>delta\<close> itself when there is at most one point), shifted by \<open>start\<close>, and
  the last of two or more points is overwritten with \<open>stop\<close>.
\<close>

definition linspace :: "real \<Rightarrow> real \<Rightarrow> int \<Rightarrow> error + real list" where
  "linspace start stop num =
     (if num < 0 then Inl ValueError
      else
        let n = nat num;
            d = num - 1;
            delta = stop - start;
            y = map real [0..<n];
            y = (if 0 < d then map (\<lambda>k. k * (delta / real_of_int d) + start) y
                 else map (\<lambda>k. k * delta + start) y);
            y = (if 1 < num then y[n - 1 := stop] else y)
        in Inr y)"


section \<open>Monitors, the environment and the controller's world\<close>

text \<open>
  An instance of \<^verbatim>\<open>ResourceMonitor\<close> (or of a subclass). The attribute \<^verbatim>\<open>function\<close> is the
  field \<open>func\<close>. \<open>stop_queue\<close>, \<open>shared_list\<close> and \<open>process\<close> are \<open>None\<close> until \<^verbatim>\<open>start\<close>;
  the queue is the list of values put on it, the shared list is the manager's list as the
  controller last saw it, the process is an index into the world's process table.
\<close>

record monitor =
  cls :: monitor_class
  func :: "os_snapshot \<Rightarrow> nat option \<Rightarrow> kwargs_t \<Rightarrow> error + sample"
  frequency :: real
  kwargs :: kwargs_t
  pid :: nat
  running :: bool
  stop_queue :: "bool list option"
  shared_list :: "sample list option"
  process :: "nat option"
  start_time :: "real option"
  prev_time :: "real option"
  end_time :: "real option"
  ticks :: "real list"
  data :: "sample list"

text \<open>
  Everything the controller reads from outside is an oracle indexed by a logical instant that
  advances with every such read: the wall clock \<^verbatim>\<open>time.time()\<close>, the state of the operating
  system, and, for the monitor at each address, the samples its sampler process has appended
  to the shared list since the controller last touched that list.
\<close>

record env =
  clock :: "nat \<Rightarrow> real"
  os_at :: "nat \<Rightarrow> os_snapshot"
  arrivals :: "nat \<Rightarrow> nat \<Rightarrow> sample list"

datatype proc_status = Alive | Joined

text \<open>History of the calls made, kept only to count them.\<close>

datatype event = StartCall nat | FetchCall nat | MetricCall nat | StopCall nat

text \<open>
  Monitors are objects with identity: the heap holds them and an address is an index into it.
\<close>

record world =
  heap :: "monitor list"
  instant :: nat
  processes :: "proc_status list"
  trace :: "event list"

text \<open>\<^verbatim>\<open>__init__\<close> of a subclass called without \<^verbatim>\<open>function\<close>: \<^verbatim>\<open>function or self.get_usage\<close>.\<close>

definition init :: "monitor_class \<Rightarrow> real \<Rightarrow> kwargs_t \<Rightarrow> nat \<Rightarrow> monitor" where
  "init c f kw p =
     \<lparr>cls = c, func = get_usage c, frequency = f, kwargs = kw, pid = p, running = False,
      stop_queue = None, shared_list = None, process = None,
      start_time = None, prev_time = None, end_time = None, ticks = [], data = []\<rparr>"

text \<open>
  \<^verbatim>\<open>start\<close>. An address outside the heap stands for an object that is not a monitor, on which
  the attribute lookup fails.
\<close>

definition start :: "env \<Rightarrow> nat \<Rightarrow> world \<Rightarrow> (error + unit) \<times> world" where
  "start env r w =
     (if length (heap w) \<le> r then (Inl AttributeError, w)
      else
        let self = heap w ! r;
            self = self\<lparr>running := True\<rparr>;
            self = self\<lparr>shared_list := Some []\<rparr>;
            self = self\<lparr>stop_queue := Some []\<rparr>;
            self = self\<lparr>start_time := Some (clock env (instant w))\<rparr>;
            self = self\<lparr>prev_time := start_time self\<rparr>;
            self = self\<lparr>process := Some (length (processes w))\<rparr>
        in (Inr (),
            w\<lparr>heap := (heap w)[r := self], instant := instant w + 1,
              processes := processes w @ [Alive], trace := trace w @ [StartCall r]\<rparr>))"

text \<open>
  \<^verbatim>\<open>fetch\<close>. With \<open>i\<close> the instant of the call: the shared list is copied at \<open>i\<close>,
  \<^verbatim>\<open>end_time\<close> is read at \<open>i + 1\<close>, the metric function runs at \<open>i + 2\<close>, \<^verbatim>\<open>tick\<close> is read at
  \<open>i + 3\<close>, the point reaches the shared list at \<open>i + 4\<close> and \<^verbatim>\<open>prev_time\<close> is read at
  \<open>i + 5\<close>. Attributes assigned before an exception keep their new values.
\<close>

definition fetch :: "env \<Rightarrow> nat \<Rightarrow> world \<Rightarrow> (error + unit) \<times> world" where
  "fetch env r w =
     (if length (heap w) \<le> r then (Inl AttributeError, w)
      else
        let self = heap w ! r;
            i = instant w;
            n = int (length (data self))
        in case shared_list self of
             None \<Rightarrow> (Inl TypeError, w\<lparr>trace := trace w @ [FetchCall r]\<rparr>)
           | Some l \<Rightarrow>
               let buf = l @ arrivals env r i;
                   self = self\<lparr>shared_list := Some buf, data := buf\<rparr>;
                   self = self\<lparr>end_time := Some (clock env (i + 1))\<rparr>
               in case func self (os_at env (i + 2)) (Some (pid self)) (kwargs self) of
                    Inl e \<Rightarrow>
                      (Inl e,
                       w\<lparr>heap := (heap w)[r := self], instant := i + 3,
                         trace := trace w @ [FetchCall r, MetricCall r]\<rparr>)
                  | Inr point \<Rightarrow>
                      let tick = clock env (i + 3);
                          w = w\<lparr>trace := trace w @ [FetchCall r, MetricCall r]\<rparr>
                      in case prev_time self of
                           None \<Rightarrow> (Inl TypeError, w\<lparr>heap := (heap w)[r := self], instant := i + 4\<rparr>)
                         | Some prev \<Rightarrow>
                             (case linspace prev (clock env (i + 1)) (int (length (data self)) - n) of
                                Inl e \<Rightarrow> (Inl e, w\<lparr>heap := (heap w)[r := self], instant := i + 4\<rparr>)
                              | Inr ts \<Rightarrow>
                                  let self = self\<lparr>ticks := ticks self @ ts\<rparr>;
                                      self = self\<lparr>data := data self @ [point]\<rparr>;
                                      self = self\<lparr>shared_list :=
                                               Some (buf @ arrivals env r (i + 4) @ [point])\<rparr>;
                                      self = self\<lparr>ticks := ticks self @ [tick]\<rparr>;
                                      self = self\<lparr>prev_time := Some (clock env (i + 5))\<rparr>
                                  in (Inr (),
                                      w\<lparr>heap := (heap w)[r := self], instant := i + 6\<rparr>)))"

text \<open>
  \<^verbatim>\<open>stop\<close>. \<^verbatim>\<open>join\<close> returns once the sampler has left its loop, which it does at its next
  look at the queue; a sampler that never looks again would leave \<^verbatim>\<open>join\<close> waiting, which this
  model does not cover.
\<close>

definition stop :: "nat \<Rightarrow> world \<Rightarrow> (error + unit) \<times> world" where
  "stop r w =
     (if length (heap w) \<le> r then (Inl AttributeError, w)
      else
        let self = heap w ! r;
            w = w\<lparr>trace := trace w @ [StopCall r]\<rparr>
        in case stop_queue self of
             None \<Rightarrow> (Inl AttributeError, w)
           | Some q \<Rightarrow>
               let self = self\<lparr>stop_queue := Some (q @ [True])\<rparr>
               in case process self of
                    None \<Rightarrow> (Inl AttributeError, w\<lparr>heap := (heap w)[r := self]\<rparr>)
                  | Some p \<Rightarrow>
                      (Inr (),
                       w\<lparr>heap := (heap w)[r := self\<lparr>running := False\<rparr>],
                         processes := (processes w)[p := Joined]\<rparr>))"


section \<open>The scoped session\<close>

text \<open>
  A selector is a string or an object taken as it is; the argument \<^verbatim>\<open>resource\<close> is a tuple
  or list of selectors, or anything else, which the session wraps into a one-element list.
\<close>

datatype selector = Alias string | Instance nat

datatype resource = Single selector | Several "selector list"

datatype yielded = Bare nat | Listed "nat list"

text \<open>
  The comprehension that builds \<^verbatim>\<open>monitors\<close>, left to right: a string is looked up and the
  class instantiated (\<^verbatim>\<open>pid\<close> is \<^verbatim>\<open>os.getpid()\<close>), anything else is used as given.
\<close>

fun make_monitors ::
  "env \<Rightarrow> real \<Rightarrow> kwargs_t \<Rightarrow> selector list \<Rightarrow> world \<Rightarrow> (error + nat list) \<times> world" where
  "make_monitors env f kw [] w = (Inr [], w)"
| "make_monitors env f kw (Alias s # rest) w =
     (case alias_lookup s of
        Inl e \<Rightarrow> (Inl e, w)
      | Inr c \<Rightarrow>
          let new = length (heap w);
              w1 = w\<lparr>heap := heap w @ [init c f kw (current_pid (os_at env (instant w)))]\<rparr>
          in case make_monitors env f kw rest w1 of
               (Inl e, w2) \<Rightarrow> (Inl e, w2)
             | (Inr ms, w2) \<Rightarrow> (Inr (new # ms), w2))"
| "make_monitors env f kw (Instance r # rest) w =
     (case make_monitors env f kw rest w of
        (Inl e, w2) \<Rightarrow> (Inl e, w2)
      | (Inr ms, w2) \<Rightarrow> (Inr (r # ms), w2))"

text \<open>The loop of the \<^verbatim>\<open>try\<close> block.\<close>

fun start_all :: "env \<Rightarrow> nat list \<Rightarrow> world \<Rightarrow> (error + unit) \<times> world" where
  "start_all env [] w = (Inr (), w)"
| "start_all env (m # ms) w =
     (case start env m w of
        (Inl e, w1) \<Rightarrow> (Inl e, w1)
      | (Inr u, w1) \<Rightarrow> start_all env ms w1)"

text \<open>The loop of the \<^verbatim>\<open>finally\<close> block.\<close>

fun fetch_and_stop_all :: "env \<Rightarrow> nat list \<Rightarrow> world \<Rightarrow> (error + unit) \<times> world" where
  "fetch_and_stop_all env [] w = (Inr (), w)"
| "fetch_and_stop_all env (m # ms) w =
     (case fetch env m w of
        (Inl e, w1) \<Rightarrow> (Inl e, w1)
      | (Inr u, w1) \<Rightarrow>
          (case stop m w1 of
             (Inl e, w2) \<Rightarrow> (Inl e, w2)
           | (Inr u, w2) \<Rightarrow> fetch_and_stop_all env ms w2))"

text \<open>What the \<^verbatim>\<open>yield\<close> hands to the wrapped block.\<close>

definition yield_value :: "nat list \<Rightarrow> yielded" where
  "yield_value monitors = (if length monitors = 1 then Bare (monitors ! 0) else Listed monitors)"

text \<open>
  The \<^verbatim>\<open>finally\<close> clause after the \<^verbatim>\<open>try\<close> block ended with outcome \<open>r_try\<close>: an exception of
  the clause replaces that outcome, otherwise the outcome stands.
\<close>

definition finally_clause :: "env \<Rightarrow> nat list \<Rightarrow> (error + unit) \<times> world \<Rightarrow> (error + unit) \<times> world" where
  "finally_clause env monitors tr =
     (case fetch_and_stop_all env monitors (snd tr) of
        (Inl e, w3) \<Rightarrow> (Inl e, w3)
      | (Inr u, w3) \<Rightarrow> (fst tr, w3))"

text \<open>The first statement of \<^verbatim>\<open>monitor_resource\<close>: a lone selector becomes a one-element list.\<close>

fun selector_list :: "resource \<Rightarrow> selector list" where
  "selector_list (Single s) = [s]"
| "selector_list (Several ss) = ss"

text \<open>
  \<^verbatim>\<open>monitor_resource\<close> as the \<^verbatim>\<open>with\<close> statement runs it: \<open>body\<close> is the wrapped block, which
  gets the yielded value and ends normally or with an exception.
\<close>

definition monitor_resource ::
  "env \<Rightarrow> resource \<Rightarrow> real \<Rightarrow> kwargs_t \<Rightarrow> (yielded \<Rightarrow> world \<Rightarrow> (error + unit) \<times> world)
     \<Rightarrow> world \<Rightarrow> (error + unit) \<times> world" where
  "monitor_resource env res f kw body w =
     (let selectors = selector_list res
      in case make_monitors env f kw selectors w of
           (Inl e, w1) \<Rightarrow> (Inl e, w1)
         | (Inr monitors, w1) \<Rightarrow>
             finally_clause env monitors
               (case start_all env monitors w1 of
                  (Inl e, w2) \<Rightarrow> (Inl e, w2)
                | (Inr u, w2) \<Rightarrow> body (yield_value monitors) w2))"


section \<open>The sampler loop\<close>












section \<open>Sequences of calls and the order of the timestamps\<close>

text \<open>
  A caller may invoke the three methods on any monitors in any order and may catch what they
  raise; the effect on the world is what remains.
\<close>

datatype call = CallStart nat | CallFetch nat | CallStop nat

fun perform :: "env \<Rightarrow> call \<Rightarrow> world \<Rightarrow> world" where
  "perform env (CallStart r) w = snd (start env r w)"
| "perform env (CallFetch r) w = snd (fetch env r w)"
| "perform env (CallStop r) w = snd (stop r w)"

definition perform_all :: "env \<Rightarrow> call list \<Rightarrow> world \<Rightarrow> world" where
  "perform_all env cs w = fold (perform env) cs w"

text \<open>
  The timestamps of the monitor at \<open>r\<close> are in order and lie in the past: none is later than
  the recorded \<^verbatim>\<open>prev_time\<close>, and neither is later than the next reading of the clock.
\<close>

definition ticks_ordered :: "env \<Rightarrow> nat \<Rightarrow> world \<Rightarrow> bool" where
  "ticks_ordered env r w \<longleftrightarrow>
     sorted (ticks (heap w ! r))
     \<and> (\<forall>t \<in> set (ticks (heap w ! r)). t \<le> clock env (instant w))
     \<and> (case prev_time (heap w ! r) of
          None \<Rightarrow> True
        | Some p \<Rightarrow> p \<le> clock env (instant w) \<and> (\<forall>t \<in> set (ticks (heap w ! r)). t \<le> p))"


section \<open>Concrete scenarios\<close>

text \<open>
  A machine without the GPU driver binding, on which process 7 is the controller; a clock
  that reads the number of the instant; a sampler that has delivered two samples by the first
  \<^verbatim>\<open>fetch\<close> of a first run and four by the first \<^verbatim>\<open>fetch\<close> of a second run.
\<close>

definition os_example :: os_snapshot where
  "os_example =
     \<lparr>cpu_percent = 25, virtual_memory_used = 3221225472, current_pid = 7,
      process_table =
        (\<lambda>q. if q = 7 then Some \<lparr>rss = 3145728, vms = 2147483648, uss = 1073741824\<rparr> else None),
      nvidia_smi = None\<rparr>"

definition env_example :: env where
  "env_example =
     \<lparr>clock = real,
      os_at = (\<lambda>i. os_example),
      arrivals = (\<lambda>r i. if i = 1 then [Num 10, Num 20]
                         else if i = 8 then [Num 30, Num 40, Num 50, Num 60] else [])\<rparr>"

definition env_quiet :: env where
  "env_quiet = \<lparr>clock = real, os_at = (\<lambda>i. os_example), arrivals = (\<lambda>r i. [])\<rparr>"

definition no_kwargs :: kwargs_t where
  "no_kwargs = \<lparr>gpu_list = None\<rparr>"

definition world_empty :: world where
  "world_empty = \<lparr>heap = [], instant = 0, processes = [], trace = []\<rparr>"

definition world_fresh :: world where
  "world_fresh = world_empty\<lparr>heap := [init CPUMonitor (1 / 2) no_kwargs 7]\<rparr>"

definition world_started :: world where
  "world_started = snd (start env_example 0 world_fresh)"



definition body_returns :: "yielded \<Rightarrow> world \<Rightarrow> (error + unit) \<times> world" where
  "body_returns y w = (Inr (), w)"

definition body_raises :: "yielded \<Rightarrow> world \<Rightarrow> (error + unit) \<times> world" where
  "body_raises y w = (Inl RuntimeError, w)"



definition two_made :: world where
  "two_made =
     snd (make_monitors env_quiet (1 / 2) no_kwargs [Alias ''memory'', Alias ''cpu''] world_empty)"

definition two_started :: world where
  "two_started = snd (start_all env_quiet [0, 1] two_made)"

definition two_stopped :: world where
  "two_stopped = snd (fetch_and_stop_all env_quiet [0, 1] two_started)"





section \<open>The metric functions and the registry\<close>

text \<open>
  Claim C8. Whenever the operating system reports a non-negative number of used bytes,
  \<^verbatim>\<open>MemoryMonitor.get_usage\<close> returns a number, that number is the byte count divided by
  \<open>1024 ^ 3\<close> (gigabytes), and it is non-negative.
\<close>

theorem MemoryMonitor_get_usage_gigabytes:
  "0 \<le> virtual_memory_used os \<Longrightarrow>
   \<exists>x. get_usage MemoryMonitor os p kw = Inr (Num x)
     \<and> x = real_of_int (virtual_memory_used os) / 1024 ^ 3 \<and> 0 \<le> x"
  by (rule exI [of _ "real_of_int (virtual_memory_used os) / 1024 ^ 3"]) simp

theorem MemoryMonitor_get_usage_gigabytes_witness:
  "0 \<le> virtual_memory_used os_example
   \<and> get_usage MemoryMonitor os_example None no_kwargs = Inr (Num 3)"
  using MemoryMonitor_get_usage_gigabytes [of os_example None no_kwargs]
  by (simp add: os_example_def)



text \<open>
  Lower-casing undoes upper-casing and does nothing twice, so strings with the same upper-case
  form, or the same lower-case form, are looked up alike.
\<close>

lemma lower_char_upper_char: "lower_char (upper_char c) = lower_char c"
proof -
  define n where "n = (of_char c :: nat)"
  have c: "char_of n = c" by (simp add: n_def)
  show ?thesis
  proof (cases "97 \<le> n \<and> n \<le> 122")
    case True
    then have lo: "97 \<le> n" and hi: "n \<le> 122" by simp_all
    have u: "upper_char c = char_of (n - 32)"
      using lo hi by (simp add: upper_char_def n_def [symmetric])
    have small: "n - 32 < 256" using hi by arith
    have range: "65 \<le> n - 32" "n - 32 \<le> 90" using lo hi by arith+
    have plus32: "n - 32 + 32 = n" using lo by arith
    have "(of_char (char_of (n - 32) :: char) :: nat) = n - 32" using small by simp
    then have "lower_char (char_of (n - 32)) = char_of (n - 32 + 32)"
      using range by (simp add: lower_char_def Let_def)
    then have "lower_char (upper_char c) = c" using u plus32 c by simp
    moreover have "\<not> n \<le> 90" using lo by arith
    then have "lower_char c = c"
      by (simp add: lower_char_def n_def [symmetric] Let_def)
    ultimately show ?thesis by simp
  next
    case False
    then have "upper_char c = c"
      unfolding upper_char_def Let_def n_def [symmetric] by auto
    then show ?thesis by simp
  qed
qed

lemma lower_char_idem: "lower_char (lower_char c) = lower_char c"
proof -
  define n where "n = (of_char c :: nat)"
  show ?thesis
  proof (cases "65 \<le> n \<and> n \<le> 90")
    case True
    then have lo: "65 \<le> n" and hi: "n \<le> 90" by simp_all
    have l: "lower_char c = char_of (n + 32)"
      using lo hi by (simp add: lower_char_def n_def [symmetric])
    have small: "n + 32 < 256" using hi by arith
    have out: "\<not> n + 32 \<le> 90" using lo by arith
    have "(of_char (char_of (n + 32) :: char) :: nat) = n + 32" using small by simp
    then have "lower_char (char_of (n + 32)) = char_of (n + 32)"
      using out by (simp add: lower_char_def Let_def)
    then show ?thesis using l by simp
  next
    case False
    then have "lower_char c = c"
      unfolding lower_char_def Let_def n_def [symmetric] by auto
    then show ?thesis by simp
  qed
qed

lemma lower_upper: "lower (upper s) = lower s"
  by (simp add: lower_def upper_def lower_char_upper_char)

lemma lower_lower: "lower (lower s) = lower s"
  by (simp add: lower_def lower_char_idem)

lemma alias_lookup_lower: "lower s = lower t \<Longrightarrow> alias_lookup s = alias_lookup t"
  by (simp add: alias_lookup_def)

lemma alias_lookup_upper: "upper s = upper t \<Longrightarrow> alias_lookup s = alias_lookup t"
proof -
  assume "upper s = upper t"
  then have "lower (upper s) = lower (upper t)" by simp
  then have "lower s = lower t" by (simp add: lower_upper)
  then show ?thesis by (rule alias_lookup_lower)
qed

text \<open>
  Claim C7. The lookup of the scoped session is case-insensitive: two string selectors that
  differ in letter case alone (they have the same upper-case form, or the same lower-case form)
  resolve alike, a selector resolves as its upper-case and as its lower-case form do, and so
  \<^verbatim>\<open>'CPU'\<close>, \<^verbatim>\<open>'Gpu_Memory'\<close> and \<^verbatim>\<open>'MemoryMonitor'\<close> resolve to their classes; and each of the
  eleven short names resolves to its class.
\<close>

theorem alias_lookup_case_insensitive:
  "(upper s = upper t \<longrightarrow> alias_lookup s = alias_lookup t)
   \<and> (lower s = lower t \<longrightarrow> alias_lookup s = alias_lookup t)
   \<and> alias_lookup (upper s) = alias_lookup s
   \<and> alias_lookup (lower s) = alias_lookup s
   \<and> alias_lookup ''CPU'' = Inr CPUMonitor
   \<and> alias_lookup ''Gpu_Memory'' = Inr GPUMemoryMonitor
   \<and> alias_lookup ''MemoryMonitor'' = Inr MemoryMonitor
   \<and> alias_lookup ''cpu'' = Inr CPUMonitor
   \<and> alias_lookup ''gpu'' = Inr GPUMonitor
   \<and> alias_lookup ''rss'' = Inr RSSMonitor
   \<and> alias_lookup ''vms'' = Inr VMSMonitor
   \<and> alias_lookup ''uss'' = Inr USSMonitor
   \<and> alias_lookup ''memory'' = Inr MemoryMonitor
   \<and> alias_lookup ''gpu_memory'' = Inr GPUMemoryMonitor
   \<and> alias_lookup ''mmonitor'' = Inr MemoryMonitor
   \<and> alias_lookup ''cmonitor'' = Inr CPUMonitor
   \<and> alias_lookup ''memorymonitor'' = Inr MemoryMonitor
   \<and> alias_lookup ''cpumonitor'' = Inr CPUMonitor"
  apply (intro conjI)
                   apply (rule impI, erule alias_lookup_upper)
                  apply (rule impI, erule alias_lookup_lower)
                 apply (rule alias_lookup_lower, rule lower_upper)
                apply (rule alias_lookup_lower, rule lower_lower)
               apply code_simp+
  done

theorem alias_lookup_case_insensitive_witness:
  "upper ''GPU_Memory'' = upper ''gpu_memory''
   \<and> lower ''GPU_Memory'' = lower ''gpu_memory''
   \<and> ''GPU_Memory'' \<noteq> ''gpu_memory''
   \<and> alias_lookup ''GPU_Memory'' = alias_lookup ''gpu_memory''
   \<and> alias_lookup ''GPU_Memory'' = Inr GPUMemoryMonitor"
proof -
  have u: "upper ''GPU_Memory'' = upper ''gpu_memory''" by code_simp
  have l: "lower ''GPU_Memory'' = lower ''gpu_memory''" by code_simp
  have d: "''GPU_Memory'' \<noteq> ''gpu_memory''" by simp
  have e: "alias_lookup ''GPU_Memory'' = alias_lookup ''gpu_memory''"
    by (rule alias_lookup_case_insensitive
               [of "''GPU_Memory''" "''gpu_memory''", THEN conjunct1, rule_format, OF u])
  have g: "alias_lookup ''gpu_memory'' = Inr GPUMemoryMonitor" by code_simp
  have h: "alias_lookup ''GPU_Memory'' = Inr GPUMemoryMonitor" using e g by (rule trans)
  show ?thesis by (intro conjI) (rule u l d e h)+
qed

lemma alias_lookup_examples:
  "alias_lookup ''cpu'' = Inr CPUMonitor"
  "alias_lookup ''memory'' = Inr MemoryMonitor"
  "alias_lookup ''gpu'' = Inr GPUMonitor"
  "alias_lookup ''CPU'' = Inr CPUMonitor"
  by code_simp+


section \<open>Properties of the interpolation\<close>

text \<open>
  For a count that is not negative, the interpolation is the list of the points
  \<open>a + j * (b - a) / (num - 1)\<close>; it has \<open>num\<close> points, which lie between the end points and
  are in order when \<open>a \<le> b\<close>.
\<close>

lemma linspace_negative: "num < 0 \<Longrightarrow> linspace a b num = Inl ValueError"
  by (simp add: linspace_def)

lemma linspace_closed:
  assumes "0 \<le> num"
  shows "linspace a b num
         = Inr (map (\<lambda>j. a + real j * ((b - a) / real (nat num - 1))) [0..<nat num])"
proof (cases "1 < num")
  case False
  with assms have "num = 0 \<or> num = 1" by auto
  then show ?thesis by (auto simp: linspace_def)
next
  case True
  define n where "n = nat num"
  have n: "1 < n" "num = int n" using True by (simp_all add: n_def)
  have d: "real_of_int (num - 1) = real (n - 1)" using n by simp
  have "(map (\<lambda>k. k * ((b - a) / real (n - 1)) + a) (map real [0..<n]))[n - 1 := b]
        = map (\<lambda>j. a + real j * ((b - a) / real (n - 1))) [0..<n]"
  proof (rule nth_equalityI)
    show "length ((map (\<lambda>k. k * ((b - a) / real (n - 1)) + a) (map real [0..<n]))[n - 1 := b])
          = length (map (\<lambda>j. a + real j * ((b - a) / real (n - 1))) [0..<n])" by simp
  next
    fix i
    assume "i < length ((map (\<lambda>k. k * ((b - a) / real (n - 1)) + a) (map real [0..<n]))[n - 1 := b])"
    then have i: "i < n" by simp
    show "(map (\<lambda>k. k * ((b - a) / real (n - 1)) + a) (map real [0..<n]))[n - 1 := b] ! i
          = map (\<lambda>j. a + real j * ((b - a) / real (n - 1))) [0..<n] ! i"
    proof (cases "i = n - 1")
      case True
      have "real (n - 1) \<noteq> 0" using n by simp
      then show ?thesis using i True by (simp add: nth_list_update)
    next
      case False
      then show ?thesis using i by (simp add: nth_list_update)
    qed
  qed
  then show ?thesis
    using True n d by (simp add: linspace_def Let_def n_def [symmetric])
qed


lemma linspace_length: "linspace a b num = Inr ts \<Longrightarrow> 0 \<le> num \<and> length ts = nat num"
  by (cases "0 \<le> num") (auto simp: linspace_closed linspace_negative)

lemma linspace_nth:
  "linspace a b num = Inr ts \<Longrightarrow> j < length ts \<Longrightarrow>
   ts ! j = a + real j * ((b - a) / real (nat num - 1))"
  by (cases "0 \<le> num") (auto simp: linspace_closed linspace_negative)

lemma linspace_bounds:
  assumes "linspace a b num = Inr ts" and "a \<le> b" and "t \<in> set ts"
  shows "a \<le> t \<and> t \<le> b"
proof -
  from assms(3) obtain j where j: "j < length ts" "t = ts ! j"
    by (auto simp: in_set_conv_nth)
  have len: "length ts = nat num" using assms(1) by (simp add: linspace_length)
  have t: "t = a + real j * ((b - a) / real (nat num - 1))"
    using linspace_nth [OF assms(1) j(1)] j(2) by simp
  have "0 \<le> real j * ((b - a) / real (nat num - 1))" using assms(2) by simp
  moreover have "real j * ((b - a) / real (nat num - 1)) \<le> b - a"
  proof (cases "nat num - 1 = 0")
    case True
    then show ?thesis using assms(2) by simp
  next
    case False
    then have pos: "0 < real (nat num - 1)" by simp
    have "real j \<le> real (nat num - 1)" using j(1) len by simp
    then have "real j * (b - a) \<le> real (nat num - 1) * (b - a)"
      using assms(2) by (intro mult_right_mono) simp_all
    then show ?thesis using pos by (simp add: pos_divide_le_eq mult.commute)
  qed
  ultimately show ?thesis using t by simp
qed

lemma linspace_sorted:
  assumes "linspace a b num = Inr ts" and "a \<le> b"
  shows "sorted ts"
proof (unfold sorted_iff_nth_mono, intro allI impI)
  fix i j
  assume ij: "i \<le> j" "j < length ts"
  have "0 \<le> (b - a) / real (nat num - 1)" using assms(2) by simp
  then have "real i * ((b - a) / real (nat num - 1)) \<le> real j * ((b - a) / real (nat num - 1))"
    using ij(1) by (intro mult_right_mono) simp_all
  then show "ts ! i \<le> ts ! j"
    using linspace_nth [OF assms(1), of i] linspace_nth [OF assms(1), of j] ij by simp
qed


section \<open>Properties of \<^verbatim>\<open>start\<close>, \<^verbatim>\<open>fetch\<close> and \<^verbatim>\<open>stop\<close>\<close>

text \<open>What a call that returned has done, when a call of \<^verbatim>\<open>fetch\<close> returns, and what no call touches.\<close>

lemma fetch_Inr_D:
  assumes "fetch env r w = (Inr u, w')"
  shows "\<exists>l prev point ts.
           r < length (heap w)
         \<and> shared_list (heap w ! r) = Some l
         \<and> prev_time (heap w ! r) = Some prev
         \<and> func (heap w ! r) (os_at env (instant w + 2)) (Some (pid (heap w ! r)))
              (kwargs (heap w ! r)) = Inr point
         \<and> linspace prev (clock env (instant w + 1))
              (int (length (l @ arrivals env r (instant w))) - int (length (data (heap w ! r))))
             = Inr ts
         \<and> w' = w\<lparr>trace := trace w @ [FetchCall r, MetricCall r],
                 heap := (heap w)[r := (heap w ! r)
                     \<lparr>end_time := Some (clock env (instant w + 1)),
                      data := l @ arrivals env r (instant w) @ [point],
                      shared_list := Some (l @ arrivals env r (instant w)
                                            @ arrivals env r (instant w + 4) @ [point]),
                      ticks := ticks (heap w ! r) @ ts @ [clock env (instant w + 3)],
                      prev_time := Some (clock env (instant w + 5))\<rparr>],
                 instant := instant w + 6\<rparr>"
  using assms unfolding fetch_def Let_def
  by (auto split: if_splits option.splits sum.splits)


lemma fetch_ValueError:
  assumes "r < length (heap w)"
    and "shared_list (heap w ! r) = Some l"
    and "prev_time (heap w ! r) = Some prev"
    and "func (heap w ! r) (os_at env (instant w + 2)) (Some (pid (heap w ! r)))
              (kwargs (heap w ! r)) = Inr point"
    and "length (l @ arrivals env r (instant w)) < length (data (heap w ! r))"
  shows "fst (fetch env r w) = Inl ValueError"
proof -
  have "linspace prev (clock env (instant w + 1))
       (int (length (l @ arrivals env r (instant w))) - int (length (data (heap w ! r)))) = Inl ValueError"
    using assms(5) by (intro linspace_negative) simp
  then show ?thesis
    using assms(1-4) unfolding fetch_def Let_def by simp
qed

lemma fetch_heap_length [simp]: "length (heap (snd (fetch env r w))) = length (heap w)"
  unfolding fetch_def Let_def
  by (simp split: option.splits sum.splits)

lemma start_heap_length [simp]: "length (heap (snd (start env r w))) = length (heap w)"
  unfolding start_def Let_def by simp

lemma stop_heap_length [simp]: "length (heap (snd (stop r w))) = length (heap w)"
  unfolding stop_def Let_def by (simp split: option.splits)

lemma fetch_other: "r' \<noteq> r \<Longrightarrow> heap (snd (fetch env r w)) ! r' = heap w ! r'"
  unfolding fetch_def Let_def
  by (simp split: option.splits sum.splits)

lemma start_other: "r' \<noteq> r \<Longrightarrow> heap (snd (start env r w)) ! r' = heap w ! r'"
  unfolding start_def Let_def by simp

lemma stop_other: "r' \<noteq> r \<Longrightarrow> heap (snd (stop r w)) ! r' = heap w ! r'"
  unfolding stop_def Let_def by (simp split: option.splits)

lemma fetch_running: "running (heap (snd (fetch env r w)) ! r') = running (heap w ! r')"
  unfolding fetch_def Let_def
  by (cases "r' = r") (simp_all split: option.splits sum.splits)

lemma stop_not_running: "running (heap w ! r') = False \<Longrightarrow> running (heap (snd (stop r w)) ! r') = False"
  unfolding stop_def Let_def
  by (cases "r' = r") (simp_all split: option.splits)

lemma stop_Inr_D:
  assumes "stop r w = (Inr u, w')"
  shows "\<exists>q p. r < length (heap w) \<and> stop_queue (heap w ! r) = Some q \<and> process (heap w ! r) = Some p
     \<and> w' = w\<lparr>heap := (heap w)[r := (heap w ! r)\<lparr>stop_queue := Some (q @ [True]), running := False\<rparr>],
               processes := (processes w)[p := Joined],
               trace := trace w @ [StopCall r]\<rparr>"
  using assms unfolding stop_def Let_def
  by (auto split: if_splits option.splits)

lemma start_result:
  "r < length (heap w) \<Longrightarrow>
   start env r w =
     (Inr (),
      w\<lparr>heap := (heap w)[r := (heap w ! r)
           \<lparr>running := True, shared_list := Some [], stop_queue := Some [],
            start_time := Some (clock env (instant w)), prev_time := Some (clock env (instant w)),
            process := Some (length (processes w))\<rparr>],
        instant := instant w + 1, processes := processes w @ [Alive],
        trace := trace w @ [StartCall r]\<rparr>)"
  unfolding start_def Let_def by simp

lemma fetch_Inl_D:
  assumes "fetch env r w = (Inl e, w')"
  shows "ticks (heap w' ! r') = ticks (heap w ! r')
       \<and> prev_time (heap w' ! r') = prev_time (heap w ! r')
       \<and> instant w \<le> instant w'"
  using assms unfolding fetch_def Let_def
  by (cases "r' = r") (auto split: if_splits option.splits sum.splits)

lemma start_instant: "instant w \<le> instant (snd (start env r w))"
  unfolding start_def Let_def by simp

lemma stop_frame:
  "ticks (heap (snd (stop r w)) ! r') = ticks (heap w ! r')
   \<and> prev_time (heap (snd (stop r w)) ! r') = prev_time (heap w ! r')
   \<and> instant (snd (stop r w)) = instant w"
  unfolding stop_def Let_def
  by (cases "r' = r") (auto split: option.splits)

lemma fetch_instant: "instant w \<le> instant (snd (fetch env r w))"
  unfolding fetch_def Let_def
  by (simp split: option.splits sum.splits)

text \<open>The first run of the scenario, evaluated.\<close>

lemma world_started_eq:
  "world_started =
     \<lparr>heap = [(init CPUMonitor (1 / 2) no_kwargs 7)
           \<lparr>running := True, shared_list := Some [], stop_queue := Some [],
            start_time := Some 0, prev_time := Some 0, process := Some 0\<rparr>],
      instant = 1, processes = [Alive], trace = [StartCall 0]\<rparr>"
  by (simp add: world_started_def world_fresh_def world_empty_def start_def env_example_def)

lemma fetch_world_started:
  "fetch env_example 0 world_started =
     (Inr (),
      \<lparr>heap = [(init CPUMonitor (1 / 2) no_kwargs 7)
           \<lparr>running := True, shared_list := Some [Num 10, Num 20, Num 25], stop_queue := Some [],
            start_time := Some 0, prev_time := Some 6, process := Some 0, end_time := Some 2,
            ticks := [0, 2, 4], data := [Num 10, Num 20, Num 25]\<rparr>],
      instant = 7, processes = [Alive], trace = [StartCall 0, FetchCall 0, MetricCall 0]\<rparr>)"
  by (simp add: world_started_eq fetch_def env_example_def init_def os_example_def linspace_def)

text \<open>
  Claim C1. If the sample list and the timestamp list of a monitor have equal length and a
  call of \<^verbatim>\<open>fetch\<close> returns, then the shared list was at least as long as the old sample
  list, the timestamps have grown by the interpolated values, as many as the copy of the shared
  list exceeds the old sample list, and by one final tick, the samples are the copy and one
  more point, and the two lists again have equal length.
\<close>

theorem fetch_equal_length:
  assumes "length (data (heap w ! r)) = length (ticks (heap w ! r))"
    and "fetch env r w = (Inr u, w')"
  shows "\<exists>l prev point ts.
           shared_list (heap w ! r) = Some l
         \<and> prev_time (heap w ! r) = Some prev
         \<and> linspace prev (clock env (instant w + 1))
              (int (length (l @ arrivals env r (instant w))) - int (length (data (heap w ! r))))
             = Inr ts
         \<and> length (data (heap w ! r)) \<le> length (l @ arrivals env r (instant w))
         \<and> length ts = length (l @ arrivals env r (instant w)) - length (data (heap w ! r))
         \<and> ticks (heap w' ! r) = ticks (heap w ! r) @ ts @ [clock env (instant w + 3)]
         \<and> data (heap w' ! r) = (l @ arrivals env r (instant w)) @ [point]
         \<and> length (data (heap w' ! r)) = length (ticks (heap w' ! r))"
proof -
  from fetch_Inr_D [OF assms(2)] obtain l prev point ts where
    r: "r < length (heap w)"
    and l: "shared_list (heap w ! r) = Some l"
    and prev: "prev_time (heap w ! r) = Some prev"
    and ts: "linspace prev (clock env (instant w + 1))
              (int (length (l @ arrivals env r (instant w))) - int (length (data (heap w ! r))))
             = Inr ts"
    and w': "w' = w\<lparr>trace := trace w @ [FetchCall r, MetricCall r],
                 heap := (heap w)[r := (heap w ! r)
                     \<lparr>end_time := Some (clock env (instant w + 1)),
                      data := l @ arrivals env r (instant w) @ [point],
                      shared_list := Some (l @ arrivals env r (instant w)
                                            @ arrivals env r (instant w + 4) @ [point]),
                      ticks := ticks (heap w ! r) @ ts @ [clock env (instant w + 3)],
                      prev_time := Some (clock env (instant w + 5))\<rparr>],
                 instant := instant w + 6\<rparr>"
    by blast
  from linspace_length [OF ts]
  have len: "length (data (heap w ! r)) \<le> length (l @ arrivals env r (instant w))"
    "length ts = length (l @ arrivals env r (instant w)) - length (data (heap w ! r))"
    by simp_all
  have t: "ticks (heap w' ! r) = ticks (heap w ! r) @ ts @ [clock env (instant w + 3)]"
    and d: "data (heap w' ! r) = (l @ arrivals env r (instant w)) @ [point]"
    using r by (simp_all add: w')
  have "length (data (heap w' ! r)) = length (ticks (heap w' ! r))"
    using len assms(1) unfolding t d by simp
  with l prev ts len t d show ?thesis by blast
qed

theorem fetch_equal_length_witness:
  "length (data (heap world_started ! 0)) = length (ticks (heap world_started ! 0))
   \<and> fst (fetch env_example 0 world_started) = Inr ()
   \<and> data (heap (snd (fetch env_example 0 world_started)) ! 0) = [Num 10, Num 20, Num 25]
   \<and> ticks (heap (snd (fetch env_example 0 world_started)) ! 0) = [0, 2, 4]"
  using fetch_equal_length [of world_started 0 env_example "()" "snd (fetch env_example 0 world_started)"]
  by (simp add: fetch_world_started) (simp add: world_started_eq init_def)









section \<open>The order of the timestamps\<close>

lemma ticks_ordered_later:
  assumes "mono (clock env)" and "ticks_ordered env r w"
    and "ticks (heap w' ! r) = ticks (heap w ! r)"
    and "prev_time (heap w' ! r) = prev_time (heap w ! r)"
    and "instant w \<le> instant w'"
  shows "ticks_ordered env r w'"
proof -
  have c: "clock env (instant w) \<le> clock env (instant w')"
    using assms(1,5) by (simp add: monoD)
  show ?thesis
    using assms(2) c unfolding ticks_ordered_def assms(3,4)
    by (auto split: option.splits intro: order_trans)
qed

lemma fetch_ticks_ordered_same:
  assumes m: "mono (clock env)" and inv: "ticks_ordered env r w"
  shows "ticks_ordered env r (snd (fetch env r w))"
proof (cases "fetch env r w")
  case (Pair res w')
  show ?thesis
  proof (cases res)
    case (Inl e)
    with Pair have "fetch env r w = (Inl e, w')" by simp
    from fetch_Inl_D [OF this, of r] show ?thesis
      using ticks_ordered_later [OF m inv, of w'] Pair by simp
  next
    case (Inr u)
    with Pair have f: "fetch env r w = (Inr u, w')" by simp
    from fetch_Inr_D [OF f] obtain l prev point ts where
      r: "r < length (heap w)"
      and prev: "prev_time (heap w ! r) = Some prev"
      and ts: "linspace prev (clock env (instant w + 1))
              (int (length (l @ arrivals env r (instant w))) - int (length (data (heap w ! r))))
             = Inr ts"
      and w': "w' = w\<lparr>trace := trace w @ [FetchCall r, MetricCall r],
                 heap := (heap w)[r := (heap w ! r)
                     \<lparr>end_time := Some (clock env (instant w + 1)),
                      data := l @ arrivals env r (instant w) @ [point],
                      shared_list := Some (l @ arrivals env r (instant w)
                                            @ arrivals env r (instant w + 4) @ [point]),
                      ticks := ticks (heap w ! r) @ ts @ [clock env (instant w + 3)],
                      prev_time := Some (clock env (instant w + 5))\<rparr>],
                 instant := instant w + 6\<rparr>"
      by blast
    have c01: "clock env (instant w) \<le> clock env (instant w + 1)"
      and c13: "clock env (instant w + 1) \<le> clock env (instant w + 3)"
      and c35: "clock env (instant w + 3) \<le> clock env (instant w + 5)"
      and c56: "clock env (instant w + 5) \<le> clock env (instant w + 6)"
      using m by (simp_all add: monoD)
    from inv prev have old: "sorted (ticks (heap w ! r))"
      "\<forall>t\<in>set (ticks (heap w ! r)). t \<le> prev" "prev \<le> clock env (instant w)"
      by (simp_all add: ticks_ordered_def)
    have pe: "prev \<le> clock env (instant w + 1)" using old(3) c01 by simp
    have tsb: "\<forall>t\<in>set ts. prev \<le> t \<and> t \<le> clock env (instant w + 1)"
      using linspace_bounds [OF ts pe] by blast
    have s: "sorted (ticks (heap w ! r) @ ts @ [clock env (instant w + 3)])"
      using old(1,2) linspace_sorted [OF ts pe] tsb pe c13
      by (fastforce simp: sorted_append)
    have b: "\<forall>t\<in>set (ticks (heap w ! r) @ ts @ [clock env (instant w + 3)]).
               t \<le> clock env (instant w + 5)"
      using old(2) tsb pe c13 c35 by fastforce
    have "ticks_ordered env r w'"
      using r s b c56 unfolding ticks_ordered_def w'
      by (auto intro: order_trans)
    then show ?thesis using Pair by simp
  qed
qed

lemma perform_ticks_ordered:
  assumes m: "mono (clock env)" and r: "r < length (heap w)" and inv: "ticks_ordered env r w"
  shows "ticks_ordered env r (perform env c w)"
proof (cases c)
  case (CallStart r')
  show ?thesis
  proof (cases "r' = r")
    case True
    have c: "clock env (instant w) \<le> clock env (instant w + 1)" using m by (simp add: monoD)
    show ?thesis
      using inv r c unfolding CallStart True ticks_ordered_def
      by (auto simp: start_result intro: order_trans)
  next
    case False
    then have "heap (snd (start env r' w)) ! r = heap w ! r" by (simp add: start_other)
    then show ?thesis
      unfolding CallStart using ticks_ordered_later [OF m inv _ _ start_instant] by simp
  qed
next
  case (CallFetch r')
  show ?thesis
  proof (cases "r' = r")
    case True
    then show ?thesis unfolding CallFetch using fetch_ticks_ordered_same [OF m inv] by simp
  next
    case False
    then have "heap (snd (fetch env r' w)) ! r = heap w ! r" by (simp add: fetch_other)
    then show ?thesis
      unfolding CallFetch using ticks_ordered_later [OF m inv _ _ fetch_instant] by simp
  qed
next
  case (CallStop r')
  show ?thesis
    unfolding CallStop using ticks_ordered_later [OF m inv, of "snd (stop r' w)"] stop_frame [of r' w r]
    by simp
qed

lemma perform_heap_length: "length (heap (perform env c w)) = length (heap w)"
  by (cases c) simp_all

lemma perform_all_ticks_ordered:
  assumes "mono (clock env)"
  shows "r < length (heap w) \<Longrightarrow> ticks_ordered env r w \<Longrightarrow>
         ticks_ordered env r (perform_all env cs w)"
proof (induction cs arbitrary: w)
  case Nil
  then show ?case by (simp add: perform_all_def)
next
  case (Cons c cs)
  have "ticks_ordered env r (perform_all env cs (perform env c w))"
    using Cons.prems perform_ticks_ordered [OF assms] perform_heap_length
    by (intro Cons.IH) simp_all
  then show ?case by (simp add: perform_all_def)
qed

text \<open>
  Claim C4. With a clock that never goes back, on a monitor whose timestamps are in order and
  in the past (as they are on a new monitor), the timestamps are in order after \<^verbatim>\<open>start\<close> and
  any number of calls of \<^verbatim>\<open>fetch\<close>, and they stay in order and in the past under any
  sequence of calls on any monitors.
\<close>

theorem ticks_non_decreasing:
  assumes "mono (clock env)" and "r < length (heap w)" and "ticks_ordered env r w"
  shows "sorted (ticks (heap (perform_all env (CallStart r # replicate k (CallFetch r)) w) ! r))
       \<and> ticks_ordered env r (perform_all env cs w)"
  using perform_all_ticks_ordered [OF assms(1), of r w]
        assms(2,3) unfolding ticks_ordered_def by blast

theorem ticks_non_decreasing_witness:
  "mono (clock env_example) \<and> 0 < length (heap world_fresh)
   \<and> ticks_ordered env_example 0 world_fresh
   \<and> ticks (heap (perform_all env_example
                     (CallStart 0 # replicate (Suc (Suc 0)) (CallFetch 0)) world_fresh) ! 0)
     = [0, 2, 4, 10]
   \<and> sorted (ticks (heap (perform_all env_example
                     (CallStart 0 # replicate (Suc (Suc 0)) (CallFetch 0)) world_fresh) ! 0))"
proof -
  have m: "mono (clock env_example)" by (simp add: env_example_def mono_def)
  have r: "0 < length (heap world_fresh)" by (simp add: world_fresh_def world_empty_def)
  have i: "ticks_ordered env_example 0 world_fresh"
    by (simp add: ticks_ordered_def world_fresh_def world_empty_def init_def)
  have t: "ticks (heap (perform_all env_example
                     (CallStart 0 # replicate (Suc (Suc 0)) (CallFetch 0)) world_fresh) ! 0)
     = [0, 2, 4, 10]"
    by (simp add: perform_all_def world_fresh_def world_empty_def start_def fetch_def stop_def
        env_example_def init_def os_example_def linspace_def)
  from ticks_non_decreasing [OF m r i, of "Suc (Suc 0)" "[]"]
  have s: "sorted (ticks (heap (perform_all env_example
                     (CallStart 0 # replicate (Suc (Suc 0)) (CallFetch 0)) world_fresh) ! 0))"
    by blast
  show ?thesis by (intro conjI) (rule m r i t s)+
qed

text \<open>
  Claim C3, as the code has it. A monitor is started, fetched and stopped, then started and
  fetched again: its timestamps keep the three entries of the first run, its samples do not;
  the sample list holds the second run only.
\<close>

theorem fetch_after_restart_discards_data:
  "data (heap (perform_all env_example [CallStart 0, CallFetch 0, CallStop 0] world_fresh) ! 0)
     = [Num 10, Num 20, Num 25]
   \<and> ticks (heap (perform_all env_example [CallStart 0, CallFetch 0, CallStop 0] world_fresh) ! 0)
     = [0, 2, 4]
   \<and> data (heap (perform_all env_example
                    [CallStart 0, CallFetch 0, CallStop 0, CallStart 0, CallFetch 0] world_fresh) ! 0)
     = [Num 30, Num 40, Num 50, Num 60, Num 25]
   \<and> ticks (heap (perform_all env_example
                    [CallStart 0, CallFetch 0, CallStop 0, CallStart 0, CallFetch 0] world_fresh) ! 0)
     = [0, 2, 4, 7, 11]"
  by (simp add: perform_all_def world_fresh_def world_empty_def start_def fetch_def stop_def
        env_example_def init_def os_example_def linspace_def)


section \<open>Properties of the scoped session\<close>



lemma cleanup_keeps_stopped:
  "running (heap w ! r) = False \<Longrightarrow>
   running (heap (snd (fetch_and_stop_all env ms w)) ! r) = False"
proof (induction ms arbitrary: w)
  case Nil
  then show ?case by simp
next
  case (Cons m ms)
  obtain r1 w1 where f: "fetch env m w = (r1, w1)" by (cases "fetch env m w")
  obtain r2 w2 where s: "stop m w1 = (r2, w2)" by (cases "stop m w1")
  have 1: "running (heap w1 ! r) = False"
    using fetch_running [of env m w r] f Cons.prems by simp
  have 2: "running (heap w2 ! r) = False"
    using stop_not_running [OF 1, of m] s by simp
  show ?case
    using f s 1 2 Cons.IH [OF 2] by (simp split: sum.splits)
qed

lemma cleanup_Inr:
  "fetch_and_stop_all env ms w = (Inr u, w') \<Longrightarrow>
   length (heap w') = length (heap w)
   \<and> (\<forall>m\<in>set ms. m < length (heap w) \<and> running (heap w' ! m) = False)
   \<and> trace w' = trace w @ concat (map (\<lambda>m. [FetchCall m, MetricCall m, StopCall m]) ms)"
proof (induction ms arbitrary: w)
  case Nil
  then show ?case by simp
next
  case (Cons m ms)
  obtain r1 w1 where f: "fetch env m w = (r1, w1)" by (cases "fetch env m w")
  obtain r2 w2 where s: "stop m w1 = (r2, w2)" by (cases "stop m w1")
  from Cons.prems f s obtain u1 u2 where
    r1: "r1 = Inr u1" and r2: "r2 = Inr u2" and rest: "fetch_and_stop_all env ms w2 = (Inr u, w')"
    by (auto split: sum.splits)
  from fetch_Inr_D [OF f [unfolded r1]] have
    m: "m < length (heap w)" and t1: "trace w1 = trace w @ [FetchCall m, MetricCall m]"
    by auto
  have l1: "length (heap w1) = length (heap w)"
    using fetch_heap_length [of env m w] f by simp
  from stop_Inr_D [OF s [unfolded r2]] have
    t2: "trace w2 = trace w1 @ [StopCall m]" and run: "running (heap w2 ! m) = False"
    and l2: "length (heap w2) = length (heap w1)"
    by auto
  from Cons.IH [OF rest] have ih:
    "length (heap w') = length (heap w2)"
    "\<forall>m\<in>set ms. m < length (heap w2) \<and> running (heap w' ! m) = False"
    "trace w' = trace w2 @ concat (map (\<lambda>m. [FetchCall m, MetricCall m, StopCall m]) ms)"
    by simp_all
  have "running (heap w' ! m) = False"
    using cleanup_keeps_stopped [OF run, of env ms] rest by simp
  then show ?case
    using ih m l1 l2 t1 t2 by simp
qed

lemma count_cleanup_trace:
  "count_list (concat (map (\<lambda>m. [FetchCall m, MetricCall m, StopCall m]) ms)) (FetchCall x)
     = count_list ms x
   \<and> count_list (concat (map (\<lambda>m. [FetchCall m, MetricCall m, StopCall m]) ms)) (StopCall x)
     = count_list ms x"
  by (induction ms) simp_all





lemma gpu_cpu_made:
  "make_monitors env_quiet (1 / 2) no_kwargs [Alias ''gpu'', Alias ''cpu''] world_empty
     = (Inr [0, 1],
        world_empty\<lparr>heap := [init GPUMonitor (1 / 2) no_kwargs 7,
                             init CPUMonitor (1 / 2) no_kwargs 7]\<rparr>)"
  by (simp add: alias_lookup_examples env_quiet_def os_example_def world_empty_def)

lemma gpu_cpu_session:
  "monitor_resource env_quiet (Several [Alias ''gpu'', Alias ''cpu'']) (1 / 2) no_kwargs
      body_returns world_empty
   = (Inl NameError,
      \<lparr>heap =
         [(init GPUMonitor (1 / 2) no_kwargs 7)
            \<lparr>running := True, shared_list := Some [], stop_queue := Some [],
             start_time := Some 0, prev_time := Some 0, process := Some 0, end_time := Some 3\<rparr>,
          (init CPUMonitor (1 / 2) no_kwargs 7)
            \<lparr>running := True, shared_list := Some [], stop_queue := Some [],
             start_time := Some 1, prev_time := Some 1, process := Some 1\<rparr>],
       instant = 5, processes = [Alive, Alive],
       trace = [StartCall 0, StartCall 1, FetchCall 0, MetricCall 0]\<rparr>)"
  unfolding monitor_resource_def selector_list.simps Let_def gpu_cpu_made
  by (simp add: finally_clause_def start_def fetch_def yield_value_def body_returns_def
        init_def gpu_query_def no_kwargs_def env_quiet_def os_example_def world_empty_def)

text \<open>
  Claim C2, as the code has it: the cleanup loop has no guard of its own. On a machine
  without the GPU driver binding, a session over \<^verbatim>\<open>['gpu', 'cpu']\<close> whose block returns
  normally ends with the \<^verbatim>\<open>NameError\<close> of the first \<^verbatim>\<open>fetch\<close>: that monitor is not stopped,
  and the second one, which was started, is neither fetched nor stopped and is left running.
\<close>

theorem monitor_resource_leaves_running:
  "fst (monitor_resource env_quiet (Several [Alias ''gpu'', Alias ''cpu'']) (1 / 2) no_kwargs
          body_returns world_empty) = Inl NameError
   \<and> running (heap (snd (monitor_resource env_quiet (Several [Alias ''gpu'', Alias ''cpu''])
                           (1 / 2) no_kwargs body_returns world_empty)) ! 0) = True
   \<and> running (heap (snd (monitor_resource env_quiet (Several [Alias ''gpu'', Alias ''cpu''])
                           (1 / 2) no_kwargs body_returns world_empty)) ! 1) = True
   \<and> stop_queue (heap (snd (monitor_resource env_quiet (Several [Alias ''gpu'', Alias ''cpu''])
                           (1 / 2) no_kwargs body_returns world_empty)) ! 1) = Some []
   \<and> trace (snd (monitor_resource env_quiet (Several [Alias ''gpu'', Alias ''cpu''])
                     (1 / 2) no_kwargs body_returns world_empty))
       = [StartCall 0, StartCall 1, FetchCall 0, MetricCall 0]"
  unfolding gpu_cpu_session by (simp add: init_def)

lemma distinct_count_list_one:
  "distinct xs \<Longrightarrow> x \<in> set xs \<Longrightarrow> count_list xs x = 1"
  by (induction xs) auto

text \<open>
  Claim C2, amended. When the monitors are built and started and the wrapped block has ended,
  normally or with an exception, and no \<^verbatim>\<open>fetch\<close> or \<^verbatim>\<open>stop\<close> of the cleanup loop raises,
  then the session ends as the block did, every monitor is left with \<^verbatim>\<open>running\<close> false, the
  loop has called \<^verbatim>\<open>fetch\<close> (with its one call of the metric function) and then \<^verbatim>\<open>stop\<close> once
  per entry of the list, in order, and so exactly once for each monitor when no monitor was
  given twice.
\<close>

theorem monitor_resource_cleanup:
  assumes "make_monitors env f kw (selector_list res) w = (Inr monitors, w1)"
    and "start_all env monitors w1 = (Inr u, w2)"
    and "body (yield_value monitors) w2 = (outcome, w3)"
    and "fetch_and_stop_all env monitors w3 = (Inr u', w4)"
  shows "monitor_resource env res f kw body w = (outcome, w4)
       \<and> (\<forall>m\<in>set monitors. running (heap w4 ! m) = False)
       \<and> trace w4 = trace w3 @ concat (map (\<lambda>m. [FetchCall m, MetricCall m, StopCall m]) monitors)
       \<and> (distinct monitors \<longrightarrow>
            (\<forall>m\<in>set monitors.
               count_list (drop (length (trace w3)) (trace w4)) (FetchCall m) = 1
             \<and> count_list (drop (length (trace w3)) (trace w4)) (StopCall m) = 1))"
proof -
  have run: "monitor_resource env res f kw body w = (outcome, w4)"
    using assms by (simp add: monitor_resource_def finally_clause_def)
  from cleanup_Inr [OF assms(4)] have
    stopped: "\<forall>m\<in>set monitors. running (heap w4 ! m) = False"
    and tr: "trace w4 = trace w3 @ concat (map (\<lambda>m. [FetchCall m, MetricCall m, StopCall m]) monitors)"
    by simp_all
  have once: "\<forall>m\<in>set monitors.
               count_list (drop (length (trace w3)) (trace w4)) (FetchCall m) = 1
             \<and> count_list (drop (length (trace w3)) (trace w4)) (StopCall m) = 1"
    if "distinct monitors"
    using that unfolding tr by (simp add: count_cleanup_trace distinct_count_list_one)
  show ?thesis using run stopped tr once by blast
qed

lemma two_made_eq:
  "make_monitors env_quiet (1 / 2) no_kwargs [Alias ''memory'', Alias ''cpu''] world_empty
     = (Inr [0, 1],
        world_empty\<lparr>heap := [init MemoryMonitor (1 / 2) no_kwargs 7,
                             init CPUMonitor (1 / 2) no_kwargs 7]\<rparr>)"
  by (simp add: alias_lookup_examples env_quiet_def os_example_def world_empty_def)

lemma two_made_val:
  "two_made = world_empty\<lparr>heap := [init MemoryMonitor (1 / 2) no_kwargs 7,
                                    init CPUMonitor (1 / 2) no_kwargs 7]\<rparr>"
  unfolding two_made_def two_made_eq by simp

lemma two_started_eq:
  "start_all env_quiet [0, 1] two_made = (Inr (), two_started)
   \<and> heap two_started =
       [(init MemoryMonitor (1 / 2) no_kwargs 7)
          \<lparr>running := True, shared_list := Some [], stop_queue := Some [],
           start_time := Some 0, prev_time := Some 0, process := Some 0\<rparr>,
        (init CPUMonitor (1 / 2) no_kwargs 7)
          \<lparr>running := True, shared_list := Some [], stop_queue := Some [],
           start_time := Some 1, prev_time := Some 1, process := Some 1\<rparr>]
   \<and> instant two_started = 2
   \<and> trace two_started = [StartCall 0, StartCall 1]
   \<and> processes two_started = [Alive, Alive]"
  unfolding two_started_def two_made_val
  by (simp add: start_def world_empty_def env_quiet_def)

lemma two_stopped_eq:
  "fetch_and_stop_all env_quiet [0, 1] two_started = (Inr (), two_stopped)
   \<and> running (heap two_stopped ! 0) = False
   \<and> running (heap two_stopped ! 1) = False
   \<and> data (heap two_stopped ! 0) = [Num 3]
   \<and> data (heap two_stopped ! 1) = [Num 25]
   \<and> ticks (heap two_stopped ! 0) = [5]
   \<and> ticks (heap two_stopped ! 1) = [11]
   \<and> stop_queue (heap two_stopped ! 0) = Some [True]
   \<and> stop_queue (heap two_stopped ! 1) = Some [True]
   \<and> processes two_stopped = [Joined, Joined]
   \<and> trace two_stopped =
       [StartCall 0, StartCall 1, FetchCall 0, MetricCall 0, StopCall 0,
        FetchCall 1, MetricCall 1, StopCall 1]"
  unfolding two_stopped_def
  by (simp add: two_started_eq fetch_def stop_def linspace_def init_def no_kwargs_def
        env_quiet_def os_example_def)

lemma two_made_run:
  "make_monitors env_quiet (1 / 2) no_kwargs [Alias ''memory'', Alias ''cpu''] world_empty
     = (Inr [0, 1], two_made)"
  unfolding two_made_def two_made_eq by simp

theorem monitor_resource_cleanup_witness:
  "make_monitors env_quiet (1 / 2) no_kwargs
       (selector_list (Several [Alias ''memory'', Alias ''cpu''])) world_empty
     = (Inr [0, 1], two_made)
   \<and> start_all env_quiet [0, 1] two_made = (Inr (), two_started)
   \<and> body_raises (yield_value [0, 1]) two_started = (Inl RuntimeError, two_started)
   \<and> fetch_and_stop_all env_quiet [0, 1] two_started = (Inr (), two_stopped)
   \<and> monitor_resource env_quiet (Several [Alias ''memory'', Alias ''cpu'']) (1 / 2) no_kwargs
         body_raises world_empty
     = (Inl RuntimeError, two_stopped)
   \<and> running (heap two_stopped ! 0) = False
   \<and> running (heap two_stopped ! 1) = False
   \<and> trace two_stopped =
       trace two_started @ [FetchCall 0, MetricCall 0, StopCall 0, FetchCall 1, MetricCall 1, StopCall 1]"
proof -
  have a: "make_monitors env_quiet (1 / 2) no_kwargs
       (selector_list (Several [Alias ''memory'', Alias ''cpu''])) world_empty
     = (Inr [0, 1], two_made)"
    unfolding selector_list.simps by (rule two_made_run)
  have b: "start_all env_quiet [0, 1] two_made = (Inr (), two_started)"
    using two_started_eq by blast
  have c: "body_raises (yield_value [0, 1]) two_started = (Inl RuntimeError, two_started)"
    by (simp add: body_raises_def)
  have d: "fetch_and_stop_all env_quiet [0, 1] two_started = (Inr (), two_stopped)"
    using two_stopped_eq by blast
  from monitor_resource_cleanup
         [of env_quiet "1 / 2" no_kwargs "Several [Alias ''memory'', Alias ''cpu'']" world_empty
             "[0, 1]" two_made "()" two_started body_raises "Inl RuntimeError" two_started
             "()" two_stopped, OF a b c d] have
    e: "monitor_resource env_quiet (Several [Alias ''memory'', Alias ''cpu'']) (1 / 2) no_kwargs
         body_raises world_empty = (Inl RuntimeError, two_stopped)"
    and f: "\<forall>m\<in>set [0, 1]. running (heap two_stopped ! m) = False"
    and g: "trace two_stopped = trace two_started
              @ concat (map (\<lambda>m. [FetchCall m, MetricCall m, StopCall m]) [0, 1])"
    by blast+
  from f have f0: "running (heap two_stopped ! 0) = False"
    and f1: "running (heap two_stopped ! 1) = False" by simp_all
  from g have g': "trace two_stopped =
       trace two_started @ [FetchCall 0, MetricCall 0, StopCall 0, FetchCall 1, MetricCall 1, StopCall 1]"
    by simp
  show ?thesis
    by (intro conjI) (rule a b c d e f0 f1 g')+
qed


section \<open>Properties of the sampler loop\<close>













end
